theory Spec2Isabelle
  imports Main
begin

section \<open>Python strings\<close>

text \<open>
  A Python \<open>str\<close> is modelled as a \<open>string\<close> whose characters stand for the code points
  below 256; \<open>ord\<close> and \<open>chr\<close> convert between a character and its code point.
\<close>

definition ESC :: char where "ESC = CHR 0x1B"
definition BEL :: char where "BEL = CHR 0x07"
definition NL :: char where "NL = CHR 0x0A"
definition CR :: char where "CR = CHR 0x0D"
definition BACKSLASH :: char where "BACKSLASH = CHR 0x5C"

definition ord :: "char \<Rightarrow> nat" where
  "ord c = of_char c"

definition chr :: "nat \<Rightarrow> char" where
  "chr n = char_of n"

definition in_range :: "char \<Rightarrow> char \<Rightarrow> char \<Rightarrow> bool" where
  \<comment> \<open>membership in the character range \<open>lo-hi\<close> of a regular-expression class\<close>
  "in_range lo hi c = (ord lo \<le> ord c \<and> ord c \<le> ord hi)"

definition isspace :: "char \<Rightarrow> bool" where
  \<comment> \<open>\<open>str.isspace\<close> on the code points below 256\<close>
  "isspace c = (ord c \<in> {9, 10, 11, 12, 13, 28, 29, 30, 31, 32, 133, 160})"

definition is_upper :: "char \<Rightarrow> bool" where
  \<comment> \<open>the code points below 256 that \<open>str.lower\<close> changes: A-Z and the Latin-1 capitals\<close>
  "is_upper c = ((65 \<le> ord c \<and> ord c \<le> 90) \<or> (192 \<le> ord c \<and> ord c \<le> 214)
                 \<or> (216 \<le> ord c \<and> ord c \<le> 222))"

definition lower_char :: "char \<Rightarrow> char" where
  "lower_char c = (if is_upper c then chr (ord c + 32) else c)"

definition lower :: "string \<Rightarrow> string" where
  \<comment> \<open>\<open>s.lower()\<close>\<close>
  "lower s = map lower_char s"

definition strip_chars :: "(char \<Rightarrow> bool) \<Rightarrow> string \<Rightarrow> string" where
  "strip_chars p s = rev (dropWhile p (rev (dropWhile p s)))"

definition strip :: "string \<Rightarrow> string" where
  \<comment> \<open>\<open>s.strip()\<close>: whitespace is removed at both ends\<close>
  "strip s = strip_chars isspace s"

definition strip_of :: "string \<Rightarrow> string \<Rightarrow> string" where
  \<comment> \<open>\<open>s.strip(chars)\<close>: every character that occurs in \<open>chars\<close> is removed at both ends\<close>
  "strip_of chars s = strip_chars (\<lambda>c. c \<in> set chars) s"

fun startswith :: "string \<Rightarrow> string \<Rightarrow> bool" where
  \<comment> \<open>\<open>s.startswith(p)\<close>\<close>
  "startswith s [] = True"
| "startswith [] (p # ps) = False"
| "startswith (c # cs) (p # ps) = (c = p \<and> startswith cs ps)"

fun contains :: "string \<Rightarrow> string \<Rightarrow> bool" where
  \<comment> \<open>\<open>k in s\<close>, with the text searched as first argument\<close>
  "contains [] k = (k = [])"
| "contains (c # cs) k = (startswith (c # cs) k \<or> contains cs k)"

fun partition1 :: "string \<Rightarrow> string \<Rightarrow> (string \<times> string) option" where
  \<comment> \<open>the text before and after the first occurrence of a separator, if there is one\<close>
  "partition1 sep [] = (if sep = [] then Some ([], []) else None)"
| "partition1 sep (c # cs) =
     (if startswith (c # cs) sep then Some ([], drop (length sep) (c # cs))
      else (case partition1 sep cs of
              None \<Rightarrow> None
            | Some (before, after) \<Rightarrow> Some (c # before, after)))"

definition split1 :: "string \<Rightarrow> string \<Rightarrow> string list" where
  \<comment> \<open>\<open>s.split(sep, 1)\<close> for a non-empty separator\<close>
  "split1 s sep = (case partition1 sep s of None \<Rightarrow> [s] | Some (before, after) \<Rightarrow> [before, after])"

fun str_nat :: "nat \<Rightarrow> string" where
  \<comment> \<open>\<open>str(n)\<close> of a non-negative integer, as an f-string formats it\<close>
  "str_nat n = (if n < 10 then [''0123456789'' ! n]
                else str_nat (n div 10) @ [''0123456789'' ! (n mod 10)])"

section \<open>Regular expressions\<close>

text \<open>
  The fragment of Python's \<open>re\<close> syntax that the program uses, with the matching order of a
  backtracking matcher: the alternatives of \<open>|\<close> are tried from left to right, \<open>?\<close> and
  \<open>*\<close> try the longer match first, \<open>*?\<close> the shorter one.  The continuation receives the
  text that follows the part matched so far.
\<close>

datatype rx =
    Lit char
  | Class "char \<Rightarrow> bool"
  | Seq rx rx
  | Alt rx rx
  | Opt rx
  | Star rx
  | Lazy rx

fun rmatch :: "rx \<Rightarrow> string \<Rightarrow> (string \<Rightarrow> string option) \<Rightarrow> string option" where
  "rmatch (Lit a) s k = (case s of [] \<Rightarrow> None | c # cs \<Rightarrow> if c = a then k cs else None)"
| "rmatch (Class p) s k = (case s of [] \<Rightarrow> None | c # cs \<Rightarrow> if p c then k cs else None)"
| "rmatch (Seq a b) s k = rmatch a s (\<lambda>t. rmatch b t k)"
| "rmatch (Alt a b) s k = (case rmatch a s k of Some r \<Rightarrow> Some r | None \<Rightarrow> rmatch b s k)"
| "rmatch (Opt a) s k = (case rmatch a s k of Some r \<Rightarrow> Some r | None \<Rightarrow> k s)"
| "rmatch (Star a) s k =
     (case rmatch a s (\<lambda>t. if length t < length s then rmatch (Star a) t k else None) of
        Some r \<Rightarrow> Some r
      | None \<Rightarrow> k s)"
| "rmatch (Lazy a) s k =
     (case k s of
        Some r \<Rightarrow> Some r
      | None \<Rightarrow> rmatch a s (\<lambda>t. if length t < length s then rmatch (Lazy a) t k else None))"

definition match_prefix :: "rx \<Rightarrow> string \<Rightarrow> string option" where
  \<comment> \<open>the text left after a match at the start of \<open>s\<close>\<close>
  "match_prefix r s = rmatch r s Some"

fun sub_empty :: "rx \<Rightarrow> string \<Rightarrow> string" where
  \<comment> \<open>\<open>pattern.sub('', text)\<close>: the leftmost matches, not overlapping, are removed\<close>
  "sub_empty r [] = []"
| "sub_empty r (c # cs) =
     (case match_prefix r (c # cs) of
        None \<Rightarrow> c # sub_empty r cs
      | Some rest \<Rightarrow> if length rest \<le> length cs then sub_empty r rest else c # sub_empty r cs)"

section \<open>The ANSI code remover\<close>

definition ansi_escape :: rx where
  \<comment> \<open>\<open>(?:\x1B[@-Z\\-_]|\x1B\[0?[0-9;]*[a-zA-Z]|\x1B\][^\a]*(\a|\x1B\\)|\x1B[P^_].*?\x1B\\)\<close>\<close>
  "ansi_escape =
     Alt (Seq (Lit ESC)
              (Class (\<lambda>c. in_range (CHR ''@'') (CHR ''Z'') c \<or> in_range BACKSLASH (CHR ''_'') c)))
    (Alt (Seq (Lit ESC) (Seq (Lit (CHR ''['')) (Seq (Opt (Lit (CHR ''0'')))
              (Seq (Star (Class (\<lambda>c. in_range (CHR ''0'') (CHR ''9'') c \<or> c = CHR '';'')))
                   (Class (\<lambda>c. in_range (CHR ''a'') (CHR ''z'') c \<or> in_range (CHR ''A'') (CHR ''Z'') c))))))
    (Alt (Seq (Lit ESC) (Seq (Lit (CHR '']'')) (Seq (Star (Class (\<lambda>c. c \<noteq> BEL)))
              (Alt (Lit BEL) (Seq (Lit ESC) (Lit BACKSLASH))))))
         (Seq (Lit ESC) (Seq (Class (\<lambda>c. c \<in> set ''P^_'')) (Seq (Lazy (Class (\<lambda>c. c \<noteq> NL)))
              (Seq (Lit ESC) (Lit BACKSLASH)))))))"

definition strip_ansi_codes :: "string \<Rightarrow> string" where
  "strip_ansi_codes text = sub_empty ansi_escape text"

section \<open>Exceptions, configuration and observable effects\<close>

datatype exn =
    KeyboardInterrupt
  | IndexError
  | Error string

fun is_Exception :: "exn \<Rightarrow> bool" where
  \<comment> \<open>whether \<open>except Exception\<close> catches it: \<open>KeyboardInterrupt\<close> is a \<open>BaseException\<close> only\<close>
  "is_Exception KeyboardInterrupt = False"
| "is_Exception IndexError = True"
| "is_Exception (Error m) = True"

fun str_exn :: "exn \<Rightarrow> string" where
  \<comment> \<open>\<open>str(e)\<close>, as \<open>{e}\<close> formats it\<close>
  "str_exn KeyboardInterrupt = []"
| "str_exn IndexError = ''list index out of range''"
| "str_exn (Error m) = m"

record config =
  debug :: bool
  github_token :: string
  repo_owner :: string
  repo_name :: string
  branch :: string
  target_file :: string

record detector =
  match :: "string option"  \<comment> \<open>\<open>detector.get("match")\<close>; \<open>None\<close> when the key is absent or null\<close>
  upload :: bool            \<comment> \<open>\<open>detector.get("upload", False)\<close>\<close>
  action :: "string list"   \<comment> \<open>\<open>detector.get("action", [])\<close>\<close>

record headers =
  Authorization :: string
  Accept :: string

record put_data =
  data_message :: string
  data_content :: string
  data_sha :: string
  data_branch :: string

text \<open>
  What the program does not own is a parameter: the remote endpoint, which answers a request
  from a state \<open>'w\<close> of its own, the body of its answer, and the base64 transport coding of
  the \<open>base64\<close> module.  Where such a call can fail, its value is \<open>Inr\<close> the result or
  \<open>Inl\<close> the text of the \<open>Exception\<close> that it raises.
\<close>

record response =
  status_code :: nat
  json_item :: "string \<Rightarrow> string + string"
    \<comment> \<open>\<open>response.json()[key]\<close>; it raises when the body is not a JSON object with that key\<close>

record 'w environment =
  requests_get :: "string \<Rightarrow> headers \<Rightarrow> 'w \<Rightarrow> (string + response) \<times> 'w"
  requests_put :: "string \<Rightarrow> headers \<Rightarrow> put_data \<Rightarrow> 'w \<Rightarrow> (string + nat) \<times> 'w"
  b64decode_str :: "string \<Rightarrow> string + string"
    \<comment> \<open>\<open>base64.b64decode(x).decode(errors='ignore')\<close>; it raises when \<open>x\<close> is not base64\<close>
  b64encode_str :: "string \<Rightarrow> string"  \<comment> \<open>\<open>base64.b64encode(x.encode()).decode()\<close>\<close>

datatype event =
    Print string           \<comment> \<open>\<open>print(text)\<close>\<close>
  | Print_detected string  \<comment> \<open>\<open>print\<close> of the check mark line \<open>Detected match: {keyword}\<close>\<close>
  | Print_updated          \<comment> \<open>\<open>print\<close> of the check mark line \<open>GitHub file updated successfully.\<close>\<close>
  | Debug string           \<comment> \<open>the time-stamped \<open>[DEBUG]\<close> line of \<open>debug_print\<close>\<close>
  | Http_get string headers
  | Http_put string headers put_data
  | Write string           \<comment> \<open>text written to the child's input\<close>
  | Sleep                  \<comment> \<open>\<open>time.sleep(0.2)\<close>\<close>

type_synonym 'w result = "event list \<times> 'w \<times> exn option"

definition emit :: "event list \<Rightarrow> 'w \<Rightarrow> 'w result" where
  "emit evs w = (evs, w, None)"

definition raise :: "exn \<Rightarrow> 'w \<Rightarrow> 'w result" where
  "raise e w = ([], w, Some e)"

definition seq :: "'w result \<Rightarrow> ('w \<Rightarrow> 'w result) \<Rightarrow> 'w result" where
  \<comment> \<open>statement sequencing: an exception skips what follows\<close>
  "seq r f =
     (case r of
        (evs, w, Some e) \<Rightarrow> (evs, w, Some e)
      | (evs, w, None) \<Rightarrow> (case f w of (evs', w', x) \<Rightarrow> (evs @ evs', w', x)))"

definition events :: "'w result \<Rightarrow> event list" where
  "events r = fst r"

definition world :: "'w result \<Rightarrow> 'w" where
  "world r = fst (snd r)"

definition raised :: "'w result \<Rightarrow> exn option" where
  "raised r = snd (snd r)"

definition debug_print :: "config \<Rightarrow> string \<Rightarrow> event list" where
  "debug_print cfg message = (if debug cfg then [Debug message] else [])"

section \<open>The GitHub updater\<close>

definition new_content :: "string \<Rightarrow> string \<Rightarrow> string" where
  \<comment> \<open>\<open>old_content + f"\n{message.strip()}\n"\<close>\<close>
  "new_content old_content message = old_content @ [NL] @ strip message @ [NL]"

definition auth_headers :: "string \<Rightarrow> headers" where
  "auth_headers token =
     \<lparr>Authorization = ''token '' @ token, Accept = ''application/vnd.github.v3+json''\<rparr>"

definition contents_url :: "string \<Rightarrow> string \<Rightarrow> string \<Rightarrow> string \<Rightarrow> string" where
  "contents_url owner name file branch_name =
     ''https://api.github.com/repos/'' @ owner @ ''/'' @ name @ ''/contents/'' @ file
       @ ''?ref='' @ branch_name"

definition update_github_file ::
  "config \<Rightarrow> 'w environment \<Rightarrow> string \<Rightarrow> string \<Rightarrow> string \<Rightarrow> string \<Rightarrow> string \<Rightarrow> string
     \<Rightarrow> 'w \<Rightarrow> 'w result" where
  "update_github_file cfg env message token owner name branch_name file w =
     (let hdrs = auth_headers token;
          url = contents_url owner name file branch_name;
          fetching = debug_print cfg (''Fetching file from GitHub: '' @ url) @ [Http_get url hdrs];
          (got, w1) = requests_get env url hdrs w
      in case got of
           Inl m \<Rightarrow> (fetching, w1, Some (Error m))
         | Inr response \<Rightarrow>
             if status_code response \<noteq> 200
             then (fetching @ [Print (''[!] GitHub GET failed: '' @ str_nat (status_code response))],
                   w1, None)
             else
               (case json_item response ''sha'' of
                  Inl m \<Rightarrow> (fetching, w1, Some (Error m))
                | Inr sha \<Rightarrow>
                    (case json_item response ''content'' of
                       Inl m \<Rightarrow> (fetching, w1, Some (Error m))
                     | Inr content \<Rightarrow>
                         (case b64decode_str env content of
                            Inl m \<Rightarrow> (fetching, w1, Some (Error m))
                          | Inr old_content \<Rightarrow>
                              (let b64_content = b64encode_str env (new_content old_content message);
                                   data = \<lparr>data_message = ''Auto-detected: '' @ strip message,
                                           data_content = b64_content, data_sha = sha,
                                           data_branch = branch_name\<rparr>;
                                   updating = fetching
                                     @ debug_print cfg ''Updating GitHub file with new content''
                                     @ [Print (''[+] Updating GitHub file: '' @ url),
                                        Http_put url hdrs data];
                                   (put, w2) = requests_put env url hdrs data w1
                               in case put of
                                    Inl m \<Rightarrow> (updating, w2, Some (Error m))
                                  | Inr status \<Rightarrow>
                                      (updating
                                         @ (if status = 200 \<or> status = 201
                                            then [Print_updated]
                                                   @ debug_print cfg
                                                       (''GitHub file updated successfully at '' @ url)
                                            else [Print (''[!] GitHub PUT failed: '' @ str_nat status)]
                                                   @ debug_print cfg
                                                       (''GitHub PUT failed with status: ''
                                                          @ str_nat status)),
                                       w2, None))))))"

definition upload_line :: "config \<Rightarrow> 'w environment \<Rightarrow> string \<Rightarrow> 'w \<Rightarrow> 'w result" where
  \<comment> \<open>the call both drivers make, with the destination taken from the configuration\<close>
  "upload_line cfg env message w =
     update_github_file cfg env message (github_token cfg) (repo_owner cfg) (repo_name cfg)
       (branch cfg) (target_file cfg) w"

definition index1 :: "string list \<Rightarrow> exn + string" where
  \<comment> \<open>\<open>xs[1]\<close>\<close>
  "index1 xs = (if 1 < length xs then Inr (xs ! 1) else Inl IndexError)"

section \<open>The main loop for Windows\<close>

text \<open>
  The child is given by what reading it returns, in order: \<open>Inr\<close> a text, \<open>Inl\<close> an exception
  raised by the read; the stream has ended when the list is exhausted.
\<close>

definition windows_action :: "config \<Rightarrow> string \<Rightarrow> 'w \<Rightarrow> 'w result" where
  "windows_action cfg a w =
     seq (emit (debug_print cfg (''Processing action: '' @ a)) w) (\<lambda>w.
     seq (if lower a = ''enter'' then emit ([Write [NL]] @ debug_print cfg ''Sent Enter'') w
          else if startswith (lower a) ''string:'' then
            (case index1 (split1 a ''string:'') of
               Inl e \<Rightarrow> raise e w
             | Inr val \<Rightarrow> emit ([Write val] @ debug_print cfg (''Sent string: '' @ val)) w)
          else emit [] w)
         (emit [Sleep]))"

fun windows_actions :: "config \<Rightarrow> string list \<Rightarrow> 'w \<Rightarrow> 'w result" where
  "windows_actions cfg [] w = emit [] w"
| "windows_actions cfg (a # as) w = seq (windows_action cfg a w) (windows_actions cfg as)"

definition windows_matched :: "config \<Rightarrow> 'w environment \<Rightarrow> string \<Rightarrow> string \<Rightarrow> detector \<Rightarrow> 'w \<Rightarrow> 'w result" where
  \<comment> \<open>the body of \<open>if keyword and keyword in cleaned\<close>\<close>
  "windows_matched cfg env cleaned keyword d w =
     seq (emit ([Print_detected keyword] @ debug_print cfg (''Detected match for keyword: '' @ keyword)) w) (\<lambda>w.
     seq (if upload d then upload_line cfg env cleaned w else emit [] w)
         (windows_actions cfg (action d)))"

definition windows_detector :: "config \<Rightarrow> 'w environment \<Rightarrow> string \<Rightarrow> detector \<Rightarrow> 'w \<Rightarrow> 'w result" where
  "windows_detector cfg env cleaned d w =
     (case match d of
        None \<Rightarrow> emit [] w
      | Some keyword \<Rightarrow>
          if keyword \<noteq> [] \<and> contains cleaned keyword then windows_matched cfg env cleaned keyword d w
          else emit [] w)"

fun windows_detectors :: "config \<Rightarrow> 'w environment \<Rightarrow> string \<Rightarrow> detector list \<Rightarrow> 'w \<Rightarrow> 'w result" where
  "windows_detectors cfg env cleaned [] w = emit [] w"
| "windows_detectors cfg env cleaned (d # ds) w =
     seq (windows_detector cfg env cleaned d w) (windows_detectors cfg env cleaned ds)"

definition windows_line :: "config \<Rightarrow> 'w environment \<Rightarrow> detector list \<Rightarrow> string \<Rightarrow> 'w \<Rightarrow> 'w result" where
  "windows_line cfg env detectors line w =
     (let cleaned = strip_ansi_codes (strip line)
      in seq (emit [Print (''[>] '' @ cleaned)] w) (windows_detectors cfg env cleaned detectors))"

fun windows_loop :: "config \<Rightarrow> 'w environment \<Rightarrow> detector list \<Rightarrow> (exn + string) list \<Rightarrow> 'w \<Rightarrow> 'w result" where
  "windows_loop cfg env detectors [] w = emit [] w"
| "windows_loop cfg env detectors (Inl e # reads) w = raise e w"
| "windows_loop cfg env detectors (Inr line # reads) w =
     (if line = [] then emit [] w
      else seq (windows_line cfg env detectors line w) (windows_loop cfg env detectors reads))"

definition run_and_detect_windows ::
  "config \<Rightarrow> 'w environment \<Rightarrow> detector list \<Rightarrow> string \<Rightarrow> exn + (exn + string) list \<Rightarrow> 'w \<Rightarrow> 'w result" where
  \<comment> \<open>\<open>child\<close> is \<open>Inl e\<close> when \<open>subprocess.Popen\<close> raises \<open>e\<close>\<close>
  "run_and_detect_windows cfg env detectors cli_bin child w =
     seq (emit [Print ''[+] Starting VSCode tunnel...''] w) (\<lambda>w.
       case child of Inl e \<Rightarrow> raise e w | Inr reads \<Rightarrow> windows_loop cfg env detectors reads w)"

section \<open>The main loop for Linux and Darwin\<close>

definition trim_artifact :: "config \<Rightarrow> string \<Rightarrow> string \<times> event list" where
  \<comment> \<open>\<open>if x.startswith('^[[B'): x = x.strip('^[[B'); debug_print(...)\<close>, with what it prints\<close>
  "trim_artifact cfg x =
     (if startswith x ''^[[B''
      then (strip_of ''^[[B'' x, debug_print cfg (''Debug cleaned line: '' @ strip_of ''^[[B'' x))
      else (x, []))"

definition unix_action :: "config \<Rightarrow> string \<Rightarrow> 'w \<Rightarrow> 'w result" where
  "unix_action cfg a w =
     seq (emit (debug_print cfg (''Processing action: '' @ a)) w) (\<lambda>w.
     seq (if lower a = ''enter'' then
            emit ([Print ''[>] Sending Enter'', Write [CR]] @ debug_print cfg (''Sent Enter ('' @ [BACKSLASH] @ ''r)'')) w
          else if lower a = ''down'' then
            emit ([Print ''[>] Sending Down'', Write [ESC, CHR ''['', CHR ''B'']]
                    @ debug_print cfg (''Sent Down ('' @ [BACKSLASH] @ ''x1b[B])'')) w
          else if lower a = ''up'' then
            emit ([Print ''[>] Sending Up'', Write [ESC, CHR ''['', CHR ''A'']]
                    @ debug_print cfg (''Sent Up ('' @ [BACKSLASH] @ ''x1b[A])'')) w
          else if lower a = ''left'' then
            emit ([Print ''[>] Sending Left'', Write [ESC, CHR ''['', CHR ''D'']]
                    @ debug_print cfg (''Sent Left ('' @ [BACKSLASH] @ ''x1b[D])'')) w
          else if lower a = ''right'' then
            emit ([Print ''[>] Sending Right'', Write [ESC, CHR ''['', CHR ''C'']]
                    @ debug_print cfg (''Sent Right ('' @ [BACKSLASH] @ ''x1b[C])'')) w
          else if startswith (lower a) ''string:'' then
            (case index1 (split1 a ''string:'') of
               Inl e \<Rightarrow> raise e w
             | Inr txt \<Rightarrow>
                 emit ([Print (''[>] Sending string: '' @ txt), Write txt]
                         @ debug_print cfg (''Sent string: '' @ txt)) w)
          else emit ([Print (''[!] Unknown action: '' @ a)] @ debug_print cfg (''Unknown action: '' @ a)) w)
         (emit [Sleep]))"

fun unix_actions :: "config \<Rightarrow> string list \<Rightarrow> 'w \<Rightarrow> 'w result" where
  "unix_actions cfg [] w = emit [] w"
| "unix_actions cfg (a # as) w = seq (unix_action cfg a w) (unix_actions cfg as)"

definition unix_matched :: "config \<Rightarrow> 'w environment \<Rightarrow> string \<Rightarrow> string \<Rightarrow> detector \<Rightarrow> 'w \<Rightarrow> 'w result" where
  \<comment> \<open>the body of \<open>if keyword and keyword in line\<close>\<close>
  "unix_matched cfg env line keyword d w =
     seq (emit ([Print_detected keyword] @ debug_print cfg (''Detected match for keyword: '' @ keyword)) w) (\<lambda>w.
     seq (if upload d then
            (let (cleaned_line, dbg) = trim_artifact cfg (strip_ansi_codes line)
             in seq (emit dbg w) (upload_line cfg env cleaned_line))
          else emit [] w)
         (unix_actions cfg (action d)))"

definition unix_detector :: "config \<Rightarrow> 'w environment \<Rightarrow> string \<Rightarrow> detector \<Rightarrow> 'w \<Rightarrow> 'w result" where
  "unix_detector cfg env line d w =
     (case match d of
        None \<Rightarrow> emit [] w
      | Some keyword \<Rightarrow>
          if keyword \<noteq> [] \<and> contains line keyword then unix_matched cfg env line keyword d w
          else emit [] w)"

fun unix_detectors :: "config \<Rightarrow> 'w environment \<Rightarrow> string \<Rightarrow> detector list \<Rightarrow> 'w \<Rightarrow> 'w result" where
  "unix_detectors cfg env line [] w = emit [] w"
| "unix_detectors cfg env line (d # ds) w =
     seq (unix_detector cfg env line d w) (unix_detectors cfg env line ds)"

definition unix_body :: "config \<Rightarrow> 'w environment \<Rightarrow> detector list \<Rightarrow> string \<Rightarrow> 'w \<Rightarrow> 'w result" where
  \<comment> \<open>the \<open>try\<close> block once \<open>child.expect\<close> has returned with \<open>child.after = after\<close>\<close>
  "unix_body cfg env detectors after w =
     (let line = strip after;
          (cleaned_print_line, dbg) = trim_artifact cfg (strip_ansi_codes line)
      in seq (emit dbg w) (\<lambda>w.
           if line = [] then emit [] w
           else seq (emit [Print (''[>] '' @ cleaned_print_line)] w) (unix_detectors cfg env line detectors)))"

definition unix_except :: "exn \<Rightarrow> event list" where
  \<comment> \<open>the handlers of the loop for an exception other than \<open>pexpect.EOF\<close>\<close>
  "unix_except e =
     (if e = KeyboardInterrupt then [Print ''[X] Interrupted by user'']
      else [Print (''[!] Exception: '' @ str_exn e)])"

fun unix_loop :: "config \<Rightarrow> 'w environment \<Rightarrow> detector list \<Rightarrow> (exn + string) list \<Rightarrow> 'w \<Rightarrow> 'w result" where
  "unix_loop cfg env detectors [] w = emit [Print ''[!] Process ended''] w"
| "unix_loop cfg env detectors (Inl e # reads) w = emit (unix_except e) w"
| "unix_loop cfg env detectors (Inr after # reads) w =
     (case unix_body cfg env detectors after w of
        (evs, w', Some e) \<Rightarrow> (evs @ unix_except e, w', None)
      | (evs, w', None) \<Rightarrow> seq (evs, w', None) (unix_loop cfg env detectors reads))"

definition run_and_detect_unix ::
  "config \<Rightarrow> 'w environment \<Rightarrow> detector list \<Rightarrow> string \<Rightarrow> exn + (exn + string) list \<Rightarrow> 'w \<Rightarrow> 'w result" where
  \<comment> \<open>\<open>child\<close> is \<open>Inl e\<close> when \<open>pexpect.spawn\<close> raises \<open>e\<close>\<close>
  "run_and_detect_unix cfg env detectors cli_bin child w =
     seq (emit (debug_print cfg (''Starting VSCode tunnel with binary '' @ cli_bin)) w) (\<lambda>w.
       case child of
         Inl e \<Rightarrow> raise e w
       | Inr reads \<Rightarrow>
           seq (emit [Print ''[+] Starting VSCode tunnel...''] w) (unix_loop cfg env detectors reads))"

section \<open>The main entry\<close>

text \<open>
  \<open>download_vscode_server\<close> enters by its outcome: \<open>Inr\<close> the path of the binary, \<open>Inl\<close> the
  exception it raises.  So do the two \<open>load_yaml\<close> calls of the module, which run before the
  \<open>try\<close> of the main entry.
\<close>

definition main ::
  "config \<Rightarrow> 'w environment \<Rightarrow> detector list \<Rightarrow> exn + string \<Rightarrow> bool \<Rightarrow> exn + (exn + string) list
     \<Rightarrow> 'w \<Rightarrow> 'w result" where
  "main cfg env detectors download windows child w =
     (case (case download of
              Inl e \<Rightarrow> raise e w
            | Inr cli \<Rightarrow>
                if windows then run_and_detect_windows cfg env detectors cli child w
                else run_and_detect_unix cfg env detectors cli child w) of
        (evs, w', Some e) \<Rightarrow>
          if is_Exception e
          then (evs @ [Print (''[X] Fatal Error: '' @ str_exn e)]
                  @ debug_print cfg (''Fatal error: '' @ str_exn e), w', None)
          else (evs, w', Some e)
      | (evs, w', None) \<Rightarrow> (evs, w', None))"

definition script ::
  "exn + config \<Rightarrow> exn + detector list \<Rightarrow> 'w environment \<Rightarrow> exn + string \<Rightarrow> bool
     \<Rightarrow> exn + (exn + string) list \<Rightarrow> 'w \<Rightarrow> 'w result" where
  "script config_yaml detector_yaml env download windows child w =
     (case config_yaml of
        Inl e \<Rightarrow> raise e w
      | Inr cfg \<Rightarrow>
          (case detector_yaml of
             Inl e \<Rightarrow> raise e w
           | Inr detectors \<Rightarrow> main cfg env detectors download windows child w))"

definition exit_code :: "'w result \<Rightarrow> nat" where
  \<comment> \<open>the interpreter's exit status: 0 when the script runs to its end, 1 for an exception that
      nothing catches (130 for \<open>KeyboardInterrupt\<close>)\<close>
  "exit_code r =
     (case raised r of None \<Rightarrow> 0 | Some KeyboardInterrupt \<Rightarrow> 130 | Some _ \<Rightarrow> 1)"

section \<open>Reading a trace\<close>

fun put_requests :: "event list \<Rightarrow> put_data list" where
  \<comment> \<open>the documents written to the remote, in order\<close>
  "put_requests [] = []"
| "put_requests (Http_put url hdrs d # evs) = d # put_requests evs"
| "put_requests (ev # evs) = put_requests evs"

fun writes :: "event list \<Rightarrow> string list" where
  \<comment> \<open>the texts written to the child's input, in order\<close>
  "writes [] = []"
| "writes (Write txt # evs) = txt # writes evs"
| "writes (ev # evs) = writes evs"

fun detected :: "event list \<Rightarrow> string list" where
  \<comment> \<open>the keywords reported as detected, in order\<close>
  "detected [] = []"
| "detected (Print_detected keyword # evs) = keyword # detected evs"
| "detected (ev # evs) = detected evs"

definition rule_matches :: "string \<Rightarrow> detector \<Rightarrow> bool" where
  \<comment> \<open>the match text is set, not empty and occurs in the line\<close>
  "rule_matches line d = (case match d of None \<Rightarrow> False | Some keyword \<Rightarrow> keyword \<noteq> [] \<and> contains line keyword)"

definition keyword_of :: "detector \<Rightarrow> string" where
  "keyword_of d = (case match d of None \<Rightarrow> [] | Some keyword \<Rightarrow> keyword)"

fun apply_in_order :: "(detector \<Rightarrow> 'w \<Rightarrow> 'w result) \<Rightarrow> detector list \<Rightarrow> 'w \<Rightarrow> 'w result" where
  \<comment> \<open>every rule of the list is applied, one after the other\<close>
  "apply_in_order f [] w = emit [] w"
| "apply_in_order f (d # ds) w = seq (f d w) (apply_in_order f ds)"

definition reaction_raises :: "string \<Rightarrow> bool" where
  \<comment> \<open>recognised as a literal to send, without the separator \<open>string:\<close> to split at\<close>
  "reaction_raises a = (startswith (lower a) ''string:'' \<and> \<not> contains a ''string:'')"

section \<open>Example configurations\<close>

definition quiet :: config where
  "quiet = \<lparr>debug = False, github_token = ''t'', repo_owner = ''o'', repo_name = ''r'',
            branch = ''main'', target_file = ''log.txt''\<rparr>"

definition not_found :: "unit environment" where
  \<comment> \<open>a remote that answers every fetch with status 404\<close>
  "not_found =
     \<lparr>requests_get = (\<lambda>url hdrs w.
        (Inr \<lparr>status_code = 404, json_item = (\<lambda>key. Inl (''KeyError: '' @ key))\<rparr>, w)),
      requests_put = (\<lambda>url hdrs d w. (Inr 200, w)),
      b64decode_str = (\<lambda>x. Inr x), b64encode_str = (\<lambda>x. x)\<rparr>"

definition document :: "string \<Rightarrow> string \<Rightarrow> response" where
  \<comment> \<open>the answer with status 200 for a file with the given version and content\<close>
  "document version doc =
     \<lparr>status_code = 200,
      json_item = (\<lambda>key. if key = ''sha'' then Inr version
                         else if key = ''content'' then Inr doc
                         else Inl (''KeyError: '' @ key))\<rparr>"

definition found :: "string \<Rightarrow> string \<Rightarrow> unit environment" where
  \<comment> \<open>a remote that holds a document with the given version and content and accepts every write;
      the transport coding is left out\<close>
  "found version doc =
     \<lparr>requests_get = (\<lambda>url hdrs w. (Inr (document version doc), w)),
      requests_put = (\<lambda>url hdrs d w. (Inr 200, w)),
      b64decode_str = (\<lambda>x. Inr x), b64encode_str = (\<lambda>x. x)\<rparr>"

definition undecodable :: "unit environment" where
  \<comment> \<open>a remote that answers every fetch with status 200 and a content that is not base64\<close>
  "undecodable =
     \<lparr>requests_get = (\<lambda>url hdrs w. (Inr (document ''v1'' ''abc''), w)),
      requests_put = (\<lambda>url hdrs d w. (Inr 200, w)),
      b64decode_str = (\<lambda>x. Inl ''Incorrect padding''), b64encode_str = (\<lambda>x. x)\<rparr>"

definition sample_rules :: "detector list" where
  "sample_rules =
     [\<lparr>match = Some ''a'', upload = False, action = [''Enter'']\<rparr>,
      \<lparr>match = Some [], upload = True, action = [''enter'']\<rparr>,
      \<lparr>match = None, upload = True, action = [''enter'']\<rparr>,
      \<lparr>match = Some ''zz'', upload = False, action = [''enter'']\<rparr>,
      \<lparr>match = Some ''b'', upload = True, action = [''teleport'', ''string:y'']\<rparr>]"

section \<open>Properties of the ANSI code remover\<close>

lemma ansi_escape_needs_ESC: "c \<noteq> ESC \<Longrightarrow> match_prefix ansi_escape (c # cs) = None"
  by (simp add: match_prefix_def ansi_escape_def)

lemma sub_empty_no_ESC: "ESC \<notin> set s \<Longrightarrow> sub_empty ansi_escape s = s"
  by (induction s) (auto simp: ansi_escape_needs_ESC)

section \<open>Sequencing and traces\<close>

lemma seq_emit_Nil: "seq (emit [] w) f = f w"
  by (cases "f w") (simp add: seq_def emit_def)

lemma seq_returns: "raised r = None \<Longrightarrow>
  seq r f = (events r @ events (f (world r)), world (f (world r)), raised (f (world r)))"
  by (cases r; cases "f (world r)") (auto simp: seq_def raised_def events_def world_def)

lemma seq_raises: "raised r = Some e \<Longrightarrow> seq r f = r"
  by (cases r) (auto simp: seq_def raised_def)

lemma raised_seq: "raised (seq r f) = (case raised r of Some e \<Rightarrow> Some e | None \<Rightarrow> raised (f (world r)))"
  by (cases r; cases "f (world r)") (auto simp: seq_def raised_def world_def split: option.splits)

lemma events_seq: "events (seq r f) = (case raised r of Some e \<Rightarrow> events r | None \<Rightarrow> events r @ events (f (world r)))"
  by (cases r; cases "f (world r)") (auto simp: seq_def raised_def world_def events_def split: option.splits)

lemma world_seq: "world (seq r f) = (case raised r of Some e \<Rightarrow> world r | None \<Rightarrow> world (f (world r)))"
  by (cases r; cases "f (world r)") (auto simp: seq_def raised_def world_def events_def split: option.splits)

lemma emit_parts [simp]: "events (emit evs w) = evs" "world (emit evs w) = w" "raised (emit evs w) = None"
  by (simp_all add: emit_def events_def world_def raised_def)

lemma raise_parts [simp]: "events (raise e w) = []" "world (raise e w) = w" "raised (raise e w) = Some e"
  by (simp_all add: raise_def events_def world_def raised_def)

section \<open>Reactions\<close>

lemma partition1_None: "(partition1 sep s = None) = (\<not> contains s sep)"
  by (induction s) (auto split: option.splits)

lemma index1_split1:
  "index1 (split1 a sep) = (case partition1 sep a of None \<Rightarrow> Inl IndexError | Some (b, c) \<Rightarrow> Inr c)"
  by (simp add: index1_def split1_def split: option.splits)

lemma partition1_prefix: "partition1 ''string:'' (''string:'' @ t) = Some ([], t)"
  by simp

lemma lower_prefix: "startswith (lower (''string:'' @ t)) ''string:''"
  by (simp add: lower_def lower_char_def is_upper_def ord_def)

lemma lower_prefix_not_key:
  "startswith s ''string:'' \<Longrightarrow> s \<noteq> ''enter'' \<and> s \<noteq> ''down'' \<and> s \<noteq> ''up'' \<and> s \<noteq> ''left'' \<and> s \<noteq> ''right''"
  by auto

lemma windows_action_literal:
  "windows_action cfg (''string:'' @ t) w
     = (debug_print cfg (''Processing action: string:'' @ t) @ [Write t]
          @ debug_print cfg (''Sent string: '' @ t) @ [Sleep], w, None)"
proof -
  have a: "lower (''string:'' @ t) \<noteq> ''enter''"
    using lower_prefix [of t] lower_prefix_not_key by blast
  show ?thesis
    unfolding windows_action_def
    by (simp only: a lower_prefix index1_split1 partition1_prefix if_False if_True)
       (simp add: seq_def emit_def)
qed

lemma unix_action_literal:
  "unix_action cfg (''string:'' @ t) w
     = (debug_print cfg (''Processing action: string:'' @ t)
          @ [Print (''[>] Sending string: '' @ t), Write t]
          @ debug_print cfg (''Sent string: '' @ t) @ [Sleep], w, None)"
proof -
  have a: "lower (''string:'' @ t) \<noteq> ''enter''" "lower (''string:'' @ t) \<noteq> ''down''"
    "lower (''string:'' @ t) \<noteq> ''up''" "lower (''string:'' @ t) \<noteq> ''left''"
    "lower (''string:'' @ t) \<noteq> ''right''"
    using lower_prefix [of t] lower_prefix_not_key by blast+
  show ?thesis
    unfolding unix_action_def
    by (simp only: a lower_prefix index1_split1 partition1_prefix if_False if_True)
       (simp add: seq_def emit_def)
qed

lemma windows_action_raises:
  assumes "reaction_raises a"
  shows "windows_action cfg a w = (debug_print cfg (''Processing action: '' @ a), w, Some IndexError)"
proof -
  from assms have p: "startswith (lower a) ''string:''" and n: "partition1 ''string:'' a = None"
    by (simp_all add: reaction_raises_def partition1_None)
  from p have k: "lower a \<noteq> ''enter''" using lower_prefix_not_key by blast
  show ?thesis
    unfolding windows_action_def
    by (simp only: k p n index1_split1 if_False if_True) (simp add: seq_def emit_def raise_def)
qed

lemma unix_action_raises:
  assumes "reaction_raises a"
  shows "unix_action cfg a w = (debug_print cfg (''Processing action: '' @ a), w, Some IndexError)"
proof -
  from assms have p: "startswith (lower a) ''string:''" and n: "partition1 ''string:'' a = None"
    by (simp_all add: reaction_raises_def partition1_None)
  from p have k: "lower a \<noteq> ''enter''" "lower a \<noteq> ''down''" "lower a \<noteq> ''up''"
    "lower a \<noteq> ''left''" "lower a \<noteq> ''right''" using lower_prefix_not_key by blast+
  show ?thesis
    unfolding unix_action_def
    by (simp only: k p n index1_split1 if_False if_True) (simp add: seq_def emit_def raise_def)
qed

lemma windows_action_sends_rest:
  assumes "startswith (lower a) ''string:''" and "partition1 ''string:'' a = Some (b, c)"
  shows "windows_action cfg a w
     = (debug_print cfg (''Processing action: '' @ a) @ [Write c]
          @ debug_print cfg (''Sent string: '' @ c) @ [Sleep], w, None)"
proof -
  from assms(1) have k: "lower a \<noteq> ''enter''" using lower_prefix_not_key by blast
  show ?thesis
    unfolding windows_action_def
    by (simp only: k assms index1_split1 if_False if_True) (simp add: seq_def emit_def)
qed

lemma unix_action_sends_rest:
  assumes "startswith (lower a) ''string:''" and "partition1 ''string:'' a = Some (b, c)"
  shows "unix_action cfg a w
     = (debug_print cfg (''Processing action: '' @ a) @ [Print (''[>] Sending string: '' @ c), Write c]
          @ debug_print cfg (''Sent string: '' @ c) @ [Sleep], w, None)"
proof -
  from assms(1) have k: "lower a \<noteq> ''enter''" "lower a \<noteq> ''down''" "lower a \<noteq> ''up''"
    "lower a \<noteq> ''left''" "lower a \<noteq> ''right''" using lower_prefix_not_key by blast+
  show ?thesis
    unfolding unix_action_def
    by (simp only: k assms index1_split1 if_False if_True) (simp add: seq_def emit_def)
qed

lemma put_requests_append: "put_requests (xs @ ys) = put_requests xs @ put_requests ys"
  by (induction xs rule: put_requests.induct) auto

lemma detected_append: "detected (xs @ ys) = detected xs @ detected ys"
  by (induction xs rule: detected.induct) auto

lemma writes_append: "writes (xs @ ys) = writes xs @ writes ys"
  by (induction xs rule: writes.induct) auto

lemma debug_print_silent:
  "put_requests (debug_print cfg m) = []" "detected (debug_print cfg m) = []" "writes (debug_print cfg m) = []"
  by (simp_all add: debug_print_def)

lemmas trace_simps = put_requests_append detected_append writes_append debug_print_silent
  events_seq raised_seq world_seq

lemma raised_windows_action:
  "raised (windows_action cfg a w) = (if reaction_raises a then Some IndexError else None)"
proof (cases "reaction_raises a")
  case True
  then show ?thesis by (simp add: windows_action_raises raised_def)
next
  case False
  then show ?thesis
    by (auto simp: windows_action_def raised_seq index1_split1 reaction_raises_def partition1_None
        split: sum.splits option.splits)
qed

lemma raised_unix_action:
  "raised (unix_action cfg a w) = (if reaction_raises a then Some IndexError else None)"
proof (cases "reaction_raises a")
  case True
  then show ?thesis by (simp add: unix_action_raises raised_def)
next
  case False
  then show ?thesis
    by (auto simp: unix_action_def raised_seq index1_split1 reaction_raises_def partition1_None
        split: sum.splits option.splits)
qed

lemma world_windows_action: "world (windows_action cfg a w) = w"
  by (auto simp: windows_action_def world_seq raised_seq split: sum.splits option.splits)

lemma world_unix_action: "world (unix_action cfg a w) = w"
  by (auto simp: unix_action_def world_seq raised_seq split: sum.splits option.splits)

lemma quiet_windows_action:
  "put_requests (events (windows_action cfg a w)) = []" "detected (events (windows_action cfg a w)) = []"
  by (auto simp: windows_action_def trace_simps split: sum.splits option.splits)

lemma quiet_unix_action:
  "put_requests (events (unix_action cfg a w)) = []" "detected (events (unix_action cfg a w)) = []"
  by (auto simp: unix_action_def trace_simps split: sum.splits option.splits)

lemma raised_windows_actions:
  "raised (windows_actions cfg as w) = (if \<exists>a\<in>set as. reaction_raises a then Some IndexError else None)"
  by (induction as arbitrary: w) (auto simp: raised_seq raised_windows_action)

lemma raised_unix_actions:
  "raised (unix_actions cfg as w) = (if \<exists>a\<in>set as. reaction_raises a then Some IndexError else None)"
  by (induction as arbitrary: w) (auto simp: raised_seq raised_unix_action)

lemma world_windows_actions: "world (windows_actions cfg as w) = w"
  by (induction as arbitrary: w) (auto simp: world_seq world_windows_action split: option.splits)

lemma world_unix_actions: "world (unix_actions cfg as w) = w"
  by (induction as arbitrary: w) (auto simp: world_seq world_unix_action split: option.splits)

lemma quiet_windows_actions:
  "put_requests (events (windows_actions cfg as w)) = []" "detected (events (windows_actions cfg as w)) = []"
  by (induction as arbitrary: w) (auto simp: trace_simps quiet_windows_action split: option.splits)

lemma quiet_unix_actions:
  "put_requests (events (unix_actions cfg as w)) = []" "detected (events (unix_actions cfg as w)) = []"
  by (induction as arbitrary: w) (auto simp: trace_simps quiet_unix_action split: option.splits)

lemma raised_update_github_file:
  "raised (update_github_file cfg env message token owner name br file w) = Some e \<Longrightarrow> is_Exception e"
  by (auto simp: update_github_file_def Let_def raised_def split: prod.splits sum.splits if_splits)

lemma detected_update_github_file:
  "detected (events (update_github_file cfg env message token owner name br file w)) = []"
  by (auto simp: update_github_file_def Let_def events_def trace_simps split: prod.splits sum.splits)


lemma writes_enter:
  "lower a = ''enter'' \<Longrightarrow>
   writes (events (windows_action cfg a w)) = [[NL]] \<and> writes (events (unix_action cfg a w)) = [[CR]]"
  by (simp add: windows_action_def unix_action_def trace_simps)

section \<open>Rules\<close>

lemma raised_upload_line: "raised (upload_line cfg env message w) = Some e \<Longrightarrow> is_Exception e"
  unfolding upload_line_def by (rule raised_update_github_file)

lemma detected_upload_line: "detected (events (upload_line cfg env message w)) = []"
  by (simp add: upload_line_def detected_update_github_file)

lemma trim_artifact_silent:
  "trim_artifact cfg x = (y, dbg) \<Longrightarrow> detected dbg = [] \<and> put_requests dbg = [] \<and> writes dbg = []"
  by (auto simp: trim_artifact_def debug_print_silent split: if_splits)

lemma raised_windows_matched:
  "raised (windows_matched cfg env cleaned keyword d w) = Some e \<Longrightarrow> is_Exception e"
  by (auto simp: windows_matched_def raised_seq raised_windows_actions
      split: option.splits if_splits dest: raised_upload_line)

lemma raised_unix_matched:
  "raised (unix_matched cfg env line keyword d w) = Some e \<Longrightarrow> is_Exception e"
  by (auto simp: unix_matched_def raised_seq raised_unix_actions
      split: option.splits if_splits prod.splits dest: raised_upload_line)

lemma detected_windows_matched:
  "detected (events (windows_matched cfg env cleaned keyword d w)) = [keyword]"
  by (auto simp: windows_matched_def trace_simps detected_upload_line quiet_windows_actions
      split: option.splits)

lemma detected_unix_matched:
  "detected (events (unix_matched cfg env line keyword d w)) = [keyword]"
  by (auto simp: unix_matched_def trace_simps detected_upload_line quiet_unix_actions
      split: option.splits prod.splits dest: trim_artifact_silent)

lemma windows_detector_cases:
  "windows_detector cfg env cleaned d w
     = (if rule_matches cleaned d then windows_matched cfg env cleaned (keyword_of d) d w else emit [] w)"
  by (simp add: windows_detector_def rule_matches_def keyword_of_def split: option.splits)

lemma unix_detector_cases:
  "unix_detector cfg env line d w
     = (if rule_matches line d then unix_matched cfg env line (keyword_of d) d w else emit [] w)"
  by (simp add: unix_detector_def rule_matches_def keyword_of_def split: option.splits)

lemma windows_detectors_filter:
  "windows_detectors cfg env cleaned ds w
     = apply_in_order (\<lambda>d. windows_matched cfg env cleaned (keyword_of d) d)
         (filter (rule_matches cleaned) ds) w"
proof (induction ds arbitrary: w)
  case Nil
  show ?case by simp
next
  case (Cons d ds)
  have rest: "windows_detectors cfg env cleaned ds
     = apply_in_order (\<lambda>d. windows_matched cfg env cleaned (keyword_of d) d)
         (filter (rule_matches cleaned) ds)"
    by (rule ext) (rule Cons.IH)
  show ?case by (simp add: windows_detector_cases rest seq_emit_Nil)
qed

lemma unix_detectors_filter:
  "unix_detectors cfg env line ds w
     = apply_in_order (\<lambda>d. unix_matched cfg env line (keyword_of d) d)
         (filter (rule_matches line) ds) w"
proof (induction ds arbitrary: w)
  case Nil
  show ?case by simp
next
  case (Cons d ds)
  have rest: "unix_detectors cfg env line ds
     = apply_in_order (\<lambda>d. unix_matched cfg env line (keyword_of d) d)
         (filter (rule_matches line) ds)"
    by (rule ext) (rule Cons.IH)
  show ?case by (simp add: unix_detector_cases rest seq_emit_Nil)
qed

lemma detected_apply_in_order:
  assumes "\<And>d w. detected (events (f d w)) = [keyword_of d]"
  shows "raised (apply_in_order f ds w) = None \<Longrightarrow>
         detected (events (apply_in_order f ds w)) = map keyword_of ds"
proof (induction ds arbitrary: w)
  case Nil
  show ?case by simp
next
  case (Cons d ds)
  from Cons.prems have here: "raised (f d w) = None"
    and later: "raised (apply_in_order f ds (world (f d w))) = None"
    by (auto simp: raised_seq split: option.splits)
  show ?case
    by (simp add: events_seq here detected_append assms Cons.IH [OF later])
qed

lemma raised_apply_in_order:
  assumes "\<And>d w e. raised (f d w) = Some e \<Longrightarrow> is_Exception e"
  shows "raised (apply_in_order f ds w) = Some e \<Longrightarrow> is_Exception e"
  by (induction ds arbitrary: w) (auto simp: raised_seq split: option.splits dest: assms)

section \<open>The loops\<close>

lemma raised_windows_detectors:
  "raised (windows_detectors cfg env cleaned ds w) = Some e \<Longrightarrow> is_Exception e"
  unfolding windows_detectors_filter by (rule raised_apply_in_order) (rule raised_windows_matched)

lemma raised_unix_detectors:
  "raised (unix_detectors cfg env line ds w) = Some e \<Longrightarrow> is_Exception e"
  unfolding unix_detectors_filter by (rule raised_apply_in_order) (rule raised_unix_matched)

lemma raised_windows_line:
  "raised (windows_line cfg env dets l w) = Some e \<Longrightarrow> is_Exception e"
  by (auto simp: windows_line_def Let_def raised_seq dest: raised_windows_detectors)

lemma raised_windows_loop:
  "raised (windows_loop cfg env dets reads w) = Some e \<Longrightarrow> is_Exception e \<or> Inl e \<in> set reads"
proof (induction cfg env dets reads w rule: windows_loop.induct)
  case (3 cfg env dets l reads w)
  then show ?case
    by (auto simp: raised_seq split: if_splits option.splits dest: raised_windows_line)
qed simp_all

lemma unix_loop_step:
  "raised (unix_body cfg env dets after w) = None \<Longrightarrow>
   unix_loop cfg env dets (Inr after # reads) w
     = seq (unix_body cfg env dets after w) (unix_loop cfg env dets reads)"
  by (cases "unix_body cfg env dets after w") (auto simp: raised_def)

lemma unix_loop_caught:
  "raised (unix_body cfg env dets after w) = Some e \<Longrightarrow>
   unix_loop cfg env dets (Inr after # reads) w
     = (events (unix_body cfg env dets after w) @ unix_except e,
        world (unix_body cfg env dets after w), None)"
  by (cases "unix_body cfg env dets after w") (auto simp: raised_def events_def world_def)

lemma raised_unix_loop: "raised (unix_loop cfg env dets reads w) = None"
proof (induction reads arbitrary: w)
  case Nil
  show ?case by simp
next
  case (Cons r reads)
  show ?case
  proof (cases r)
    case (Inl e)
    then show ?thesis by simp
  next
    case (Inr after)
    show ?thesis
    proof (cases "raised (unix_body cfg env dets after w)")
      case None
      then show ?thesis
        unfolding Inr unix_loop_step [OF None] by (simp add: raised_seq Cons.IH)
    next
      case (Some e)
      then show ?thesis
        unfolding Inr unix_loop_caught [OF Some] by (simp add: raised_def)
    qed
  qed
qed

section \<open>The exit code\<close>

lemma raised_run_and_detect_unix:
  "raised (run_and_detect_unix cfg env dets cli child w)
     = (case child of Inl e \<Rightarrow> Some e | Inr reads \<Rightarrow> None)"
  by (simp add: run_and_detect_unix_def raised_seq raised_unix_loop split: sum.splits)

lemma raised_run_and_detect_windows:
  "raised (run_and_detect_windows cfg env dets cli child w) = Some e \<Longrightarrow>
   is_Exception e \<or> child = Inl e \<or> (\<exists>reads. child = Inr reads \<and> Inl e \<in> set reads)"
  by (auto simp: run_and_detect_windows_def raised_seq split: sum.splits dest: raised_windows_loop)

lemma raised_main:
  "raised (main cfg env dets download windows child w) = Some e \<Longrightarrow>
   e = KeyboardInterrupt
   \<and> (download = Inl e \<or> child = Inl e \<or> (windows \<and> (\<exists>reads. child = Inr reads \<and> Inl e \<in> set reads)))"
proof -
  assume r: "raised (main cfg env dets download windows child w) = Some e"
  let ?inner = "case download of
        Inl e \<Rightarrow> raise e w
      | Inr cli \<Rightarrow> if windows then run_and_detect_windows cfg env dets cli child w
                   else run_and_detect_unix cfg env dets cli child w"
  from r have inner: "raised ?inner = Some e" and base: "\<not> is_Exception e"
    by (auto simp: main_def raised_def split: prod.splits option.splits if_splits)
  from base have k: "e = KeyboardInterrupt" by (cases e) simp_all
  from inner base have "download = Inl e \<or> child = Inl e
      \<or> (windows \<and> (\<exists>reads. child = Inr reads \<and> Inl e \<in> set reads))"
    by (auto simp: raised_run_and_detect_unix split: sum.splits if_splits
        dest: raised_run_and_detect_windows)
  with k show ?thesis by simp
qed

lemma exit_code_0: "(exit_code r = 0) = (raised r = None)"
  by (auto simp: exit_code_def split: option.splits exn.splits)

section \<open>After a failed fetch\<close>


lemma seq_emit: "seq (emit evs w) f = (evs @ events (f w), world (f w), raised (f w))"
  by (cases "f w") (simp add: seq_def emit_def events_def world_def raised_def)

lemma seq_emit_emit: "seq (emit xs w) (\<lambda>v. seq (emit ys (h v)) f) = seq (emit (xs @ ys) (h w)) f"
  by (simp add: seq_emit events_def world_def raised_def)











section \<open>Claim C1\<close>

text \<open>
  Claim C1: in both drivers the match text of a rule is compared with the cleaned form of the
  line.  The pipe-based driver does so.  The pseudo-terminal driver compares with the text as
  it was read, trimmed of white space only: on the text \<open>lo ESC[0m gin\<close>, whose cleaned
  form is \<open>login\<close>, the rule for \<open>login\<close> is applied by the pipe-based driver and is
  not by the pseudo-terminal driver.
\<close>

theorem unix_driver_matches_raw_line:
  "strip_ansi_codes (strip (''lo'' @ [ESC] @ ''[0mgin'')) = ''login''
   \<and> contains ''login'' ''login''
   \<and> run_and_detect_unix quiet not_found [\<lparr>match = Some ''login'', upload = False, action = [''enter'']\<rparr>]
        ''code'' (Inr [Inr (''lo'' @ [ESC] @ ''[0mgin'')]) ()
      = ([Print ''[+] Starting VSCode tunnel...'', Print ''[>] login'', Print ''[!] Process ended''],
         (), None)
   \<and> run_and_detect_windows quiet not_found [\<lparr>match = Some ''login'', upload = False, action = [''enter'']\<rparr>]
        ''code'' (Inr [Inr (''lo'' @ [ESC] @ ''[0mgin'')]) ()
      = ([Print ''[+] Starting VSCode tunnel...'', Print ''[>] login'', Print_detected ''login'',
          Write [NL], Sleep], (), None)"
  by code_simp

section \<open>Claim C2\<close>

text \<open>
  Claim C2, as the code has it.  One pass over the text removes the sequences it finds; an
  escape character that it leaves behind can form a new sequence with the text that follows
  a removed one, so a second pass may remove more.  When the stripped text holds no escape
  character, stripping it again changes nothing: \<open>strip(strip(x)) = strip(x)\<close> for every
  \<open>x\<close> whose stripped form is free of the escape character.
\<close>

theorem strip_ansi_codes_idempotent_without_ESC:
  "ESC \<notin> set (strip_ansi_codes x) \<Longrightarrow> strip_ansi_codes (strip_ansi_codes x) = strip_ansi_codes x"
  unfolding strip_ansi_codes_def by (rule sub_empty_no_ESC)

theorem strip_ansi_codes_idempotent_without_ESC_witness:
  "ESC \<notin> set (strip_ansi_codes ([ESC] @ ''[1;32mgreen'' @ [ESC] @ ''[0m''))
   \<and> strip_ansi_codes (strip_ansi_codes ([ESC] @ ''[1;32mgreen'' @ [ESC] @ ''[0m'')) = ''green''"
proof -
  have clean: "strip_ansi_codes ([ESC] @ ''[1;32mgreen'' @ [ESC] @ ''[0m'') = ''green''"
    by code_simp
  have free: "ESC \<notin> set (strip_ansi_codes ([ESC] @ ''[1;32mgreen'' @ [ESC] @ ''[0m''))"
    unfolding clean by (simp add: ESC_def)
  from strip_ansi_codes_idempotent_without_ESC [OF free] clean free show ?thesis by simp
qed

theorem strip_ansi_codes_not_idempotent:
  "strip_ansi_codes (strip_ansi_codes [ESC, ESC, CHR ''A'', CHR ''A''])
     \<noteq> strip_ansi_codes [ESC, ESC, CHR ''A'', CHR ''A'']"
  by code_simp

section \<open>Claim C3\<close>

text \<open>
  Claim C3, as the code has it.  A rule whose match text is missing or empty is never applied.
  Whenever the rules are evaluated for a line to the end of the rule set, no reaction and no
  remote update raising an exception, what happens is what applying, in the order of the rule
  set, the rules whose match text is not empty and occurs in the line does, and the keywords
  reported as detected are exactly theirs, in that order.
\<close>

theorem matching_rules_applied_in_order:
  "(raised (windows_detectors cfg env cleaned ds w) = None \<longrightarrow>
      windows_detectors cfg env cleaned ds w
        = apply_in_order (\<lambda>d. windows_matched cfg env cleaned (keyword_of d) d)
            (filter (rule_matches cleaned) ds) w
      \<and> detected (events (windows_detectors cfg env cleaned ds w))
        = map keyword_of (filter (rule_matches cleaned) ds))
   \<and> (raised (unix_detectors cfg env line ds w) = None \<longrightarrow>
      unix_detectors cfg env line ds w
        = apply_in_order (\<lambda>d. unix_matched cfg env line (keyword_of d) d)
            (filter (rule_matches line) ds) w
      \<and> detected (events (unix_detectors cfg env line ds w))
        = map keyword_of (filter (rule_matches line) ds))"
proof -
  have win: "detected (events (windows_detectors cfg env cleaned ds w))
      = map keyword_of (filter (rule_matches cleaned) ds)"
    if "raised (windows_detectors cfg env cleaned ds w) = None"
    using that unfolding windows_detectors_filter
    by (rule detected_apply_in_order [rotated]) (rule detected_windows_matched)
  have unix: "detected (events (unix_detectors cfg env line ds w))
      = map keyword_of (filter (rule_matches line) ds)"
    if "raised (unix_detectors cfg env line ds w) = None"
    using that unfolding unix_detectors_filter
    by (rule detected_apply_in_order [rotated]) (rule detected_unix_matched)
  from win unix windows_detectors_filter [of cfg env cleaned ds w]
    unix_detectors_filter [of cfg env line ds w]
  show ?thesis by blast
qed

theorem matching_rules_applied_in_order_witness:
  "raised (windows_detectors quiet not_found ''ab'' sample_rules ()) = None
   \<and> raised (unix_detectors quiet not_found ''ab'' sample_rules ()) = None
   \<and> detected (events (windows_detectors quiet not_found ''ab'' sample_rules ())) = [''a'', ''b'']
   \<and> detected (events (unix_detectors quiet not_found ''ab'' sample_rules ())) = [''a'', ''b'']"
proof -
  have h1: "raised (windows_detectors quiet not_found ''ab'' sample_rules ()) = None"
    by code_simp
  have h2: "raised (unix_detectors quiet not_found ''ab'' sample_rules ()) = None"
    by code_simp
  have e: "map keyword_of (filter (rule_matches ''ab'') sample_rules) = [''a'', ''b'']"
    by code_simp
  from matching_rules_applied_in_order [of quiet not_found "''ab''" sample_rules "()" "''ab''"] h1 h2
  have "detected (events (windows_detectors quiet not_found ''ab'' sample_rules ()))
          = map keyword_of (filter (rule_matches ''ab'') sample_rules)
      \<and> detected (events (unix_detectors quiet not_found ''ab'' sample_rules ()))
          = map keyword_of (filter (rule_matches ''ab'') sample_rules)"
    by blast
  with h1 h2 show ?thesis unfolding e by blast
qed

theorem matching_rule_not_applied:
  "contains ''hello'' []
   \<and> windows_detectors quiet not_found ''hello'' [\<lparr>match = Some [], upload = True, action = [''enter'']\<rparr>] ()
        = ([], (), None)
   \<and> unix_detectors quiet not_found ''hello'' [\<lparr>match = Some [], upload = True, action = [''enter'']\<rparr>] ()
        = ([], (), None)
   \<and> contains ''ab'' ''b''
   \<and> windows_detectors quiet not_found ''ab''
        [\<lparr>match = Some ''a'', upload = False, action = [''String:y'']\<rparr>,
         \<lparr>match = Some ''b'', upload = False, action = [''enter'']\<rparr>] ()
        = ([Print_detected ''a''], (), Some IndexError)
   \<and> detected (events (windows_detectors quiet undecodable ''ab''
        [\<lparr>match = Some ''a'', upload = True, action = []\<rparr>,
         \<lparr>match = Some ''b'', upload = False, action = [''enter'']\<rparr>] ())) = [''a'']
   \<and> raised (windows_detectors quiet undecodable ''ab''
        [\<lparr>match = Some ''a'', upload = True, action = []\<rparr>,
         \<lparr>match = Some ''b'', upload = False, action = [''enter'']\<rparr>] ())
        = Some (Error ''Incorrect padding'')"
  by code_simp

section \<open>Claim C4\<close>

text \<open>
  Claim C4: in both drivers an unrecognised reaction is skipped with a diagnostic, and the
  reactions after it still run.  The pseudo-terminal driver prints \<open>Unknown action\<close>.  The
  pipe-based driver has no such branch: for the reactions \<open>teleport\<close>, \<open>enter\<close> it pauses,
  sends the newline and pauses, and nothing tells that \<open>teleport\<close> was not recognised.
\<close>

theorem windows_driver_unknown_reaction_unreported:
  "run_and_detect_windows quiet not_found
      [\<lparr>match = Some ''a'', upload = False, action = [''teleport'', ''enter'']\<rparr>] ''code''
      (Inr [Inr (''a'' @ [NL])]) ()
     = ([Print ''[+] Starting VSCode tunnel...'', Print ''[>] a'', Print_detected ''a'',
         Sleep, Write [NL], Sleep], (), None)
   \<and> run_and_detect_unix quiet not_found
      [\<lparr>match = Some ''a'', upload = False, action = [''teleport'', ''enter'']\<rparr>] ''code''
      (Inr [Inr (''a'' @ [NL])]) ()
     = ([Print ''[+] Starting VSCode tunnel...'', Print ''[>] a'', Print_detected ''a'',
         Print ''[!] Unknown action: teleport'', Sleep,
         Print ''[>] Sending Enter'', Write [CR], Sleep, Print ''[!] Process ended''], (), None)"
  by code_simp

section \<open>Claim C5\<close>

text \<open>
  Claim C5, as the code has it.  When the fetch answers with status 200 and a body that holds
  the version under \<open>sha\<close> and a \<open>content\<close> that decodes, the update writes one
  document back: the decoded content, a newline, the line without the white space around it,
  and one more newline; it carries the version token of the fetch just made.
\<close>

theorem update_github_file_writes_back:
  assumes "requests_get env (contents_url owner name file br) (auth_headers token) w = (Inr response, w1)"
    and "status_code response = 200"
    and "json_item response ''sha'' = Inr sha"
    and "json_item response ''content'' = Inr content"
    and "b64decode_str env content = Inr old_content"
  shows "put_requests (events (update_github_file cfg env message token owner name br file w))
     = [\<lparr>data_message = ''Auto-detected: '' @ strip message,
         data_content = b64encode_str env (old_content @ [NL] @ strip message @ [NL]),
         data_sha = sha, data_branch = br\<rparr>]"
  using assms
  by (simp add: update_github_file_def Let_def events_def new_content_def trace_simps
      split: prod.splits sum.splits)

theorem update_github_file_writes_back_witness:
  "put_requests (events (update_github_file quiet (found ''v1'' ''log'') '' code 42 ''
      ''t'' ''o'' ''r'' ''main'' ''log.txt'' ()))
     = [\<lparr>data_message = ''Auto-detected: code 42'', data_content = ''log'' @ [NL] @ ''code 42'' @ [NL],
         data_sha = ''v1'', data_branch = ''main''\<rparr>]"
proof -
  have h1: "requests_get (found ''v1'' ''log'') (contents_url ''o'' ''r'' ''log.txt'' ''main'')
      (auth_headers ''t'') () = (Inr (document ''v1'' ''log''), ())"
    by (simp add: found_def)
  have h2: "status_code (document ''v1'' ''log'') = 200"
    by (simp add: document_def)
  have h3: "json_item (document ''v1'' ''log'') ''sha'' = Inr ''v1''"
    by (simp add: document_def)
  have h4: "json_item (document ''v1'' ''log'') ''content'' = Inr ''log''"
    by (simp add: document_def)
  have h5: "b64decode_str (found ''v1'' ''log'') ''log'' = Inr ''log''"
    by (simp add: found_def)
  have s: "strip '' code 42 '' = ''code 42''"
    by code_simp
  from update_github_file_writes_back [OF h1 h2 h3 h4 h5, of quiet "'' code 42 ''"] show ?thesis
    by (simp add: s found_def)
qed

theorem new_content_not_line_plus_newline:
  "new_content ''a'' ''b'' = ''a'' @ [NL] @ ''b'' @ [NL]
   \<and> new_content ''a'' ''b'' \<noteq> ''a'' @ ''b'' @ [NL]
   \<and> put_requests (events (update_github_file quiet (found ''v1'' ''a'') ''b''
        ''t'' ''o'' ''r'' ''main'' ''log.txt'' ()))
      = [\<lparr>data_message = ''Auto-detected: b'', data_content = ''a'' @ [NL] @ ''b'' @ [NL],
          data_sha = ''v1'', data_branch = ''main''\<rparr>]"
  by code_simp

section \<open>Claim C6\<close>



section \<open>Claim C7\<close>

text \<open>
  Claim C7, as the code has it.  The exit code is not zero when \<open>config.yaml\<close> or
  \<open>detector.yaml\<close> cannot be loaded, which happens before the \<open>try\<close> of the main entry.
  It is zero when the session ends with the stream, and also when resolving the binary,
  starting the child or the loop raises an \<open>Exception\<close>: the main entry catches it, prints
  \<open>Fatal Error\<close> and the script runs to its end.
\<close>

theorem exit_code_of_script:
  "exit_code (script (Inl e) detector_yaml env download windows child w) \<noteq> 0
   \<and> exit_code (script (Inr cfg) (Inl e) env download windows child w) \<noteq> 0
   \<and> (is_Exception e \<longrightarrow> exit_code (script (Inr cfg) (Inr dets) env (Inl e) windows child w) = 0)
   \<and> (is_Exception e \<longrightarrow> exit_code (script (Inr cfg) (Inr dets) env (Inr cli) windows (Inl e) w) = 0)
   \<and> exit_code (script (Inr cfg) (Inr dets) env (Inr cli) False (Inr reads) w) = 0
   \<and> (Inl KeyboardInterrupt \<notin> set reads \<longrightarrow>
        exit_code (script (Inr cfg) (Inr dets) env (Inr cli) True (Inr reads) w) = 0)"
proof -
  have a: "exit_code (script (Inl e) detector_yaml env download windows child w) \<noteq> 0"
    by (simp add: script_def exit_code_0)
  have b: "exit_code (script (Inr cfg) (Inl e) env download windows child w) \<noteq> 0"
    by (simp add: script_def exit_code_0)
  have none: "raised (main cfg env dets d win c w) = None"
    if "\<And>x. raised (main cfg env dets d win c w) = Some x \<Longrightarrow> False" for d win c
    using that by (cases "raised (main cfg env dets d win c w)") auto
  have c: "exit_code (script (Inr cfg) (Inr dets) env (Inl e) windows child w) = 0" if "is_Exception e"
    unfolding exit_code_0 script_def using that
    by (simp add: main_def raised_def raise_def)
  have d: "exit_code (script (Inr cfg) (Inr dets) env (Inr cli) windows (Inl e) w) = 0" if "is_Exception e"
    unfolding exit_code_0 script_def sum.case
    by (rule none) (use that in \<open>auto dest!: raised_main\<close>)
  have f: "exit_code (script (Inr cfg) (Inr dets) env (Inr cli) False (Inr reads) w) = 0"
    unfolding exit_code_0 script_def sum.case
    by (rule none) (auto dest!: raised_main)
  have g: "exit_code (script (Inr cfg) (Inr dets) env (Inr cli) True (Inr reads) w) = 0"
    if "Inl KeyboardInterrupt \<notin> set reads"
    unfolding exit_code_0 script_def sum.case
    by (rule none) (use that in \<open>auto dest!: raised_main\<close>)
  from a b c d f g show ?thesis by blast
qed

theorem exit_code_of_script_witness:
  "is_Exception (Error ''Extraction failed'')
   \<and> Inl KeyboardInterrupt \<notin> set [Inr ''a'', Inl (Error ''broken pipe'')]
   \<and> exit_code (script (Inl (Error ''Extraction failed'')) (Inr []) not_found (Inr ''code'') True (Inr []) ()) \<noteq> 0
   \<and> exit_code (script (Inr quiet) (Inr []) not_found (Inl (Error ''Extraction failed'')) True (Inr []) ()) = 0
   \<and> exit_code (script (Inr quiet) (Inr []) not_found (Inr ''code'') True
        (Inr [Inr ''a'', Inl (Error ''broken pipe'')]) ()) = 0"
proof -
  have h1: "is_Exception (Error ''Extraction failed'')" by simp
  have h2: "Inl KeyboardInterrupt \<notin> set [Inr ''a'', Inl (Error ''broken pipe'')]" by simp
  note t1 = exit_code_of_script [of "Error ''Extraction failed''" "Inr []" not_found "Inr ''code''" True
      "Inr []" "()" quiet "[]" "''code''" "[Inr ''a'', Inl (Error ''broken pipe'')]"]
  from t1 h1 h2 show ?thesis by blast
qed

theorem fatal_startup_exits_zero:
  "script (Inr quiet) (Inr []) not_found (Inl (Error ''Unsupported OS: Plan9'')) False (Inr []) ()
     = ([Print ''[X] Fatal Error: Unsupported OS: Plan9''], (), None)
   \<and> exit_code (script (Inr quiet) (Inr []) not_found (Inl (Error ''Unsupported OS: Plan9'')) False
        (Inr []) ()) = 0"
  by code_simp

section \<open>Claim C8\<close>

text \<open>
  Claim C8: in the pseudo-terminal driver a cleaned line that begins with \<open>^[[B\<close> has this
  artifact trimmed from its front, and from its front only, before it is printed and before
  it is forwarded.  The code calls \<open>strip('^[[B')\<close>, which removes every \<open>^\<close>, \<open>[\<close> and
  \<open>B\<close> at both ends: of \<open>^[[BBye[\<close> it prints and forwards \<open>ye\<close>, not \<open>Bye[\<close>.
\<close>

theorem artifact_trim_strips_both_ends:
  "startswith (strip_ansi_codes (strip ''^[[BBye['')) ''^[[B''
   \<and> run_and_detect_unix quiet not_found [] ''code'' (Inr [Inr ''^[[BBye['']) ()
      = ([Print ''[+] Starting VSCode tunnel...'', Print ''[>] ye'', Print ''[!] Process ended''],
         (), None)
   \<and> put_requests (events (run_and_detect_unix quiet (found ''v1'' ''log'')
        [\<lparr>match = Some ''Bye'', upload = True, action = []\<rparr>] ''code'' (Inr [Inr ''^[[BBye['']) ()))
      = [\<lparr>data_message = ''Auto-detected: ye'', data_content = ''log'' @ [NL] @ ''ye'' @ [NL],
          data_sha = ''v1'', data_branch = ''main''\<rparr>]"
  by code_simp

section \<open>Claim C9\<close>

text \<open>
  Claim C9: in both drivers a rule whose match text is missing, \<open>None\<close> or empty matches no
  line.  Nothing is printed, uploaded or sent for it, and the other rules are evaluated as if
  it were not in the rule set.
\<close>

theorem unmatched_rule_is_skipped:
  "match d = None \<or> match d = Some [] \<Longrightarrow>
     windows_detector cfg env cleaned d w = ([], w, None)
   \<and> unix_detector cfg env line d w = ([], w, None)
   \<and> windows_detectors cfg env cleaned (d # ds) w = windows_detectors cfg env cleaned ds w
   \<and> unix_detectors cfg env line (d # ds) w = unix_detectors cfg env line ds w"
  by (auto simp: windows_detector_def unix_detector_def emit_def [symmetric] seq_emit_Nil)

theorem unmatched_rule_is_skipped_witness:
  "windows_detector quiet (found ''v1'' ''log'') ''hello'' \<lparr>match = Some [], upload = True, action = [''enter'']\<rparr> ()
     = ([], (), None)
   \<and> unix_detector quiet (found ''v1'' ''log'') ''hello'' \<lparr>match = Some [], upload = True, action = [''enter'']\<rparr> ()
     = ([], (), None)"
proof -
  have h: "match \<lparr>match = Some [], upload = True, action = [''enter'']\<rparr> = None
      \<or> match \<lparr>match = Some [], upload = True, action = [''enter'']\<rparr> = Some []"
    by simp
  from unmatched_rule_is_skipped [OF h, of quiet "found ''v1'' ''log''" "''hello''" "()" "''hello''" "[]"]
  show ?thesis by blast
qed

section \<open>Claim C10\<close>

text \<open>
  Claim C10, as the code has it.  Reactions are recognised on the lower-cased identifier, and
  the text to send is what follows the first \<open>string:\<close> of the identifier as written.  So
  \<open>string:\<close> followed by a text sends exactly that text; an identifier that starts with
  \<open>string:\<close> only when lower-cased raises \<open>IndexError\<close> and sends nothing when
  \<open>string:\<close> occurs nowhere in it, and otherwise sends what follows its first occurrence.
\<close>

theorem literal_reaction_split:
  "windows_action cfg (''string:'' @ t) w
     = (debug_print cfg (''Processing action: string:'' @ t) @ [Write t]
          @ debug_print cfg (''Sent string: '' @ t) @ [Sleep], w, None)
   \<and> unix_action cfg (''string:'' @ t) w
     = (debug_print cfg (''Processing action: string:'' @ t)
          @ [Print (''[>] Sending string: '' @ t), Write t]
          @ debug_print cfg (''Sent string: '' @ t) @ [Sleep], w, None)
   \<and> (startswith (lower a) ''string:'' \<and> \<not> contains a ''string:'' \<longrightarrow>
        windows_action cfg a w = (debug_print cfg (''Processing action: '' @ a), w, Some IndexError)
      \<and> unix_action cfg a w = (debug_print cfg (''Processing action: '' @ a), w, Some IndexError))
   \<and> (startswith (lower a) ''string:'' \<and> partition1 ''string:'' a = Some (b, c) \<longrightarrow>
        writes (events (windows_action cfg a w)) = [c]
      \<and> writes (events (unix_action cfg a w)) = [c])
   \<and> (lower a = ''enter'' \<longrightarrow>
        writes (events (windows_action cfg a w)) = [[NL]]
      \<and> writes (events (unix_action cfg a w)) = [[CR]])"
proof -
  have raises: "windows_action cfg a w = (debug_print cfg (''Processing action: '' @ a), w, Some IndexError)
      \<and> unix_action cfg a w = (debug_print cfg (''Processing action: '' @ a), w, Some IndexError)"
    if "startswith (lower a) ''string:''" and "\<not> contains a ''string:''"
    using that windows_action_raises [of a cfg w] unix_action_raises [of a cfg w]
    by (simp add: reaction_raises_def)
  have sends: "writes (events (windows_action cfg a w)) = [c]
      \<and> writes (events (unix_action cfg a w)) = [c]"
    if "startswith (lower a) ''string:''" and "partition1 ''string:'' a = Some (b, c)"
    by (simp add: windows_action_sends_rest [OF that] unix_action_sends_rest [OF that]
        events_def writes_append debug_print_silent)
  from raises sends writes_enter [of a cfg w] windows_action_literal [of cfg t w]
    unix_action_literal [of cfg t w]
  show ?thesis by blast
qed

theorem literal_reaction_split_witness:
  "startswith (lower ''String:y'') ''string:'' \<and> \<not> contains ''String:y'' ''string:''
   \<and> windows_action quiet ''String:y'' () = ([], (), Some IndexError)
   \<and> unix_action quiet ''String:y'' () = ([], (), Some IndexError)
   \<and> windows_action quiet ''string:String:y'' () = ([Write ''String:y'', Sleep], (), None)
   \<and> lower ''ENTER'' = ''enter''
   \<and> writes (events (unix_action quiet ''ENTER'' ())) = [[CR]]
   \<and> partition1 ''string:'' ''STRING:a string:b'' = Some (''STRING:a '', ''b'')
   \<and> writes (events (unix_action quiet ''STRING:a string:b'' ())) = [''b'']"
proof -
  have h1: "startswith (lower ''String:y'') ''string:'' \<and> \<not> contains ''String:y'' ''string:''"
    by code_simp
  have h2: "lower ''ENTER'' = ''enter''"
    by code_simp
  have h3: "startswith (lower ''STRING:a string:b'') ''string:''
      \<and> partition1 ''string:'' ''STRING:a string:b'' = Some (''STRING:a '', ''b'')"
    by code_simp
  have dq: "debug_print quiet m = []" for m
    by (simp add: debug_print_def quiet_def)
  from literal_reaction_split [of quiet "''String:y''" "()" "''String:y''" "''STRING:a ''" "''b''"] h1
  have a: "windows_action quiet (''string:'' @ ''String:y'') ()
      = (debug_print quiet (''Processing action: string:'' @ ''String:y'') @ [Write ''String:y'']
          @ debug_print quiet (''Sent string: '' @ ''String:y'') @ [Sleep], (), None)"
    and b: "windows_action quiet ''String:y'' () = (debug_print quiet (''Processing action: '' @ ''String:y''), (), Some IndexError)"
      "unix_action quiet ''String:y'' () = (debug_print quiet (''Processing action: '' @ ''String:y''), (), Some IndexError)"
    by blast+
  from literal_reaction_split [of quiet "[]" "()" "''ENTER''" "[]" "[]"] h2
  have c: "writes (events (unix_action quiet ''ENTER'' ())) = [[CR]]"
    by blast
  from literal_reaction_split [of quiet "[]" "()" "''STRING:a string:b''" "''STRING:a ''" "''b''"] h3
  have d: "writes (events (unix_action quiet ''STRING:a string:b'' ())) = [''b'']"
    by blast
  from a have a': "windows_action quiet ''string:String:y'' () = ([Write ''String:y'', Sleep], (), None)"
    by (simp only: dq append_Nil append_Cons)
  from b have b': "windows_action quiet ''String:y'' () = ([], (), Some IndexError)"
    "unix_action quiet ''String:y'' () = ([], (), Some IndexError)"
    by (simp_all only: dq)
  from h1 h2 h3 a' b' c d show ?thesis by blast
qed

theorem mixed_case_literal_can_send:
  "startswith (lower ''String:string:y'') ''string:'' \<and> \<not> startswith ''String:string:y'' ''string:''
   \<and> windows_action quiet ''String:string:y'' () = ([Write ''y'', Sleep], (), None)
   \<and> unix_action quiet ''String:string:y'' ()
        = ([Print ''[>] Sending string: y'', Write ''y'', Sleep], (), None)"
  by code_simp
end
